theory Spec2Isabelle
  imports
    Main
    "HOL-Library.AList"
    "HOL-Library.Sublist"
    "HOL-Library.Char_ord"
    "HOL-Library.List_Lexorder"
begin

section \<open>Python strings\<close>

text \<open>
  A Python \<open>str\<close> is modelled as a \<open>string\<close>: a list of characters, each character a code
  point below 256. Comparison of strings (\<open>sorted\<close>) is lexicographic on code points, which
  is the order of \<open>HOL-Library.List_Lexorder\<close> over \<open>HOL-Library.Char_ord\<close>.
\<close>

text \<open>\<open>str.isspace\<close> on one character, for the code points below 256.\<close>

definition py_isspace :: "char \<Rightarrow> bool" where
  "py_isspace c =
     (let n = (of_char c :: nat)
      in (9 \<le> n \<and> n \<le> 13) \<or> (28 \<le> n \<and> n \<le> 32) \<or> n = 133 \<or> n = 160)"

text \<open>\<open>s.strip()\<close>: leading and trailing whitespace removed.\<close>

definition strip :: "string \<Rightarrow> string" where
  "strip s = rev (dropWhile py_isspace (rev (dropWhile py_isspace s)))"

text \<open>\<open>sub in s\<close> for strings: \<open>sub\<close> occurs in \<open>s\<close> as a contiguous substring.\<close>

fun contains :: "string \<Rightarrow> string \<Rightarrow> bool" where
  "contains sub [] = (sub = [])"
| "contains sub (c # cs) = (prefix sub (c # cs) \<or> contains sub cs)"

text \<open>
  \<open>s.split(sep)\<close> for a non-empty separator: the text is cut at the occurrences of
  \<open>sep\<close>, found from left to right without overlap. \<open>acc\<close> holds, reversed, the characters
  of the segment being read. The source calls \<open>split\<close> with the literals \<open>' - '\<close>, \<open>','\<close> and
  \<open>'Cited by '\<close> only, so the \<open>ValueError\<close> of Python on an empty separator cannot occur;
  \<open>split\<close> below returns the unsplit text there.
\<close>

function split_from :: "string \<Rightarrow> string \<Rightarrow> string \<Rightarrow> string list" where
  "split_from sep acc [] = [rev acc]"
| "split_from sep acc (c # cs) =
     (if sep \<noteq> [] \<and> prefix sep (c # cs)
      then rev acc # split_from sep [] (drop (length sep - 1) cs)
      else split_from sep (c # acc) cs)"
  by pat_completeness auto
termination
  by (relation "measure (\<lambda>(sep, acc, s). length s)") auto

definition split :: "string \<Rightarrow> string \<Rightarrow> string list" where
  "split s sep = split_from sep [] s"

section \<open>The tag store\<close>

text \<open>
  \<open>TagManager.author_tags\<close> is a Python dictionary from author names to lists of tags. It is
  modelled as an association list in insertion order: \<open>map_of\<close> is the lookup,
  \<open>AList.update\<close> assigns to a key (in place when the key is present, at the end when it is
  new) and \<open>AList.delete\<close> is \<open>del\<close>. A dictionary has each key once: \<open>distinct (map fst d)\<close>,
  which the operations keep (\<open>add_tag_keys_distinct\<close>, \<open>remove_tag_keys_distinct\<close>).
  \<open>file_content\<close> is what \<open>tags_file\<close> holds on disk, \<open>None\<close> before any write.
\<close>

record tag_manager =
  author_tags :: "(string \<times> string list) list"
  file_content :: "(string \<times> string list) list option"

text \<open>
  \<open>save_tags\<close>: the dictionary is dumped to the file. The write is taken to succeed; an
  error of the file system is outside the model.
\<close>

definition save_tags :: "tag_manager \<Rightarrow> tag_manager" where
  "save_tags s = s\<lparr>file_content := Some (author_tags s)\<rparr>"

text \<open>
  \<open>add_tag\<close>. The lookup \<open>self.author_tags[author]\<close> comes after the key was set, so its
  \<open>KeyError\<close> branch is never taken (\<open>add_tag_key_present\<close>).
\<close>

definition add_tag :: "string \<Rightarrow> string \<Rightarrow> tag_manager \<Rightarrow> tag_manager" where
  "add_tag author tag s =
     (let d1 = (if map_of (author_tags s) author = None
                then AList.update author [] (author_tags s)
                else author_tags s);
          d2 = (case map_of d1 author of
                  None \<Rightarrow> d1
                | Some ts \<Rightarrow>
                    if tag \<notin> set ts then AList.update author (ts @ [tag]) d1 else d1)
      in save_tags (s\<lparr>author_tags := d2\<rparr>))"

text \<open>\<open>remove_tag\<close>: \<open>list.remove\<close> takes out the first occurrence of the tag.\<close>

definition remove_tag :: "string \<Rightarrow> string \<Rightarrow> tag_manager \<Rightarrow> tag_manager" where
  "remove_tag author tag s =
     (case map_of (author_tags s) author of
        None \<Rightarrow> s
      | Some ts \<Rightarrow>
          if tag \<in> set ts then
            (let ts' = remove1 tag ts;
                 d1 = AList.update author ts' (author_tags s);
                 d2 = (if ts' = [] then AList.delete author d1 else d1)
             in save_tags (s\<lparr>author_tags := d2\<rparr>))
          else s)"

text \<open>
  The queries are methods of the same object: each takes the store and returns its result
  together with the store it leaves behind.
\<close>

definition get_tags :: "string \<Rightarrow> tag_manager \<Rightarrow> string list \<times> tag_manager" where
  "get_tags author s =
     (case map_of (author_tags s) author of None \<Rightarrow> ([], s) | Some ts \<Rightarrow> (ts, s))"

text \<open>\<open>get_all_tags\<close>: the loop over \<open>values()\<close> collects a set, which \<open>sorted\<close> lists.\<close>

fun all_tags_loop :: "string list list \<Rightarrow> string set \<Rightarrow> string set" where
  "all_tags_loop [] all_tags = all_tags"
| "all_tags_loop (ts # rest) all_tags = all_tags_loop rest (all_tags \<union> set ts)"

definition get_all_tags :: "tag_manager \<Rightarrow> string list \<times> tag_manager" where
  "get_all_tags s =
     (sorted_list_of_set (all_tags_loop (map snd (author_tags s)) {}), s)"

section \<open>Filtering papers by the tags of their authors\<close>

text \<open>
  A paper is the dictionary that \<open>extract_paper_info\<close> builds; \<open>filter_papers_by_tags\<close>
  adds the key \<open>matching_authors\<close> to the papers it keeps (\<open>None\<close>: the key is absent).
\<close>

record matching_author =
  name :: string
  tags :: "string list"
  matching_tags :: "string list"

record paper =
  title :: string
  authors :: "string list"
  snippet :: string
  cited_by :: int
  publication_info :: string
  matching_authors :: "matching_author list option"

text \<open>The inner loop \<open>for auth in paper['authors']\<close>, which fills \<open>matching_authors\<close>.\<close>

fun matching_loop ::
  "string list \<Rightarrow> string list \<Rightarrow> matching_author list \<Rightarrow> tag_manager \<Rightarrow>
   matching_author list \<times> tag_manager" where
  "matching_loop [] selected_tags acc s = (acc, s)"
| "matching_loop (auth # rest) selected_tags acc s =
     (case get_tags auth s of
        (auth_tags, s1) \<Rightarrow>
          (let mts = filter (\<lambda>tag. tag \<in> set selected_tags) auth_tags
           in if mts \<noteq> []
              then matching_loop rest selected_tags
                     (acc @ [\<lparr>name = auth, tags = auth_tags, matching_tags = mts\<rparr>]) s1
              else matching_loop rest selected_tags acc s1))"

text \<open>
  The loop \<open>for author in paper['authors']\<close> with its \<open>break\<close>: \<open>Some\<close> of the annotated
  paper when an author matches, \<open>None\<close> when the loop runs to its end.
\<close>

fun author_loop ::
  "paper \<Rightarrow> string list \<Rightarrow> string list \<Rightarrow> tag_manager \<Rightarrow> paper option \<times> tag_manager" where
  "author_loop p [] selected_tags s = (None, s)"
| "author_loop p (author # rest) selected_tags s =
     (case get_tags author s of
        (found_tags, s1) \<Rightarrow>
          if list_ex (\<lambda>tag. tag \<in> set found_tags) selected_tags
          then (case matching_loop (authors p) selected_tags [] s1 of
                  (ms, s2) \<Rightarrow> (Some (p\<lparr>matching_authors := Some ms\<rparr>), s2))
          else author_loop p rest selected_tags s1)"

text \<open>The outer loop \<open>for paper in papers\<close>.\<close>

fun paper_loop ::
  "paper list \<Rightarrow> string list \<Rightarrow> paper list \<Rightarrow> tag_manager \<Rightarrow> paper list \<times> tag_manager" where
  "paper_loop [] selected_tags filtered_papers s = (filtered_papers, s)"
| "paper_loop (p # rest) selected_tags filtered_papers s =
     (case author_loop p (authors p) selected_tags s of
        (None, s1) \<Rightarrow> paper_loop rest selected_tags filtered_papers s1
      | (Some p', s1) \<Rightarrow> paper_loop rest selected_tags (filtered_papers @ [p']) s1)"

definition filter_papers_by_tags ::
  "paper list \<Rightarrow> string list \<Rightarrow> tag_manager \<Rightarrow> paper list \<times> tag_manager" where
  "filter_papers_by_tags papers selected_tags s =
     (if selected_tags = [] then (papers, s) else paper_loop papers selected_tags [] s)"

section \<open>The route \<open>/add_tag\<close>\<close>

text \<open>
  The request body is a JSON object; \<open>data.get(key, '')\<close> reads a key that may be absent
  (\<open>get_or_empty\<close>). The handler answers with an error and status 400, or with success.
\<close>

record tag_request =
  req_author :: "string option"
  req_tag :: "string option"

datatype response = Success | Error400 string

definition get_or_empty :: "string option \<Rightarrow> string" where
  "get_or_empty field = (case field of None \<Rightarrow> [] | Some v \<Rightarrow> v)"

definition add_tag_route :: "tag_request \<Rightarrow> tag_manager \<Rightarrow> response \<times> tag_manager" where
  "add_tag_route data s =
     (let author = strip (get_or_empty (req_author data));
          tag = strip (get_or_empty (req_tag data))
      in if author = [] \<or> tag = []
         then (Error400 ''Author and tag are required'', s)
         else (Success, add_tag author tag s))"

section \<open>Extraction of a paper from a result block\<close>

text \<open>
  \<open>extract_paper_info\<close> reads a result block through four queries. The block is modelled
  by their answers: the text of the first \<open>h3\<close> of class \<open>gs_rt\<close>, of the first \<open>div\<close> of
  class \<open>gs_a\<close> and of the first \<open>div\<close> of class \<open>gs_rs\<close> (\<open>None\<close> when \<open>find\<close> finds no
  such element), and the \<open>a\<close> elements in document order, each with its \<open>.string\<close>
  (\<open>None\<close> unless the element has a single string inside) and its \<open>get_text()\<close>.
\<close>

record anchor =
  a_string :: "string option"
  a_text :: string

record result_div =
  h3_gs_rt :: "string option"
  div_gs_a :: "string option"
  div_gs_rs :: "string option"
  a_elems :: "anchor list"

datatype py_error = IndexError | ValueError

text \<open>\<open>xs[i]\<close> for \<open>i \<ge> 0\<close>.\<close>

definition getitem :: "'a list \<Rightarrow> nat \<Rightarrow> py_error + 'a" where
  "getitem xs i = (if i < length xs then Inr (xs ! i) else Inl IndexError)"

text \<open>
  \<open>int(s)\<close> on a string, base 10: whitespace around the number is skipped (for \<open>int\<close> the
  code points 9 to 13, 32, 133 and 160), one sign is read, then decimal digits, where a
  single underscore may stand between two digits. More than 4300 digits are refused (the
  interpreter's default limit on the conversion). Everything else is a \<open>ValueError\<close>.
\<close>

definition int_isspace :: "char \<Rightarrow> bool" where
  "int_isspace c =
     (let n = (of_char c :: nat)
      in (9 \<le> n \<and> n \<le> 13) \<or> n = 32 \<or> n = 133 \<or> n = 160)"

definition is_digit :: "char \<Rightarrow> bool" where
  "is_digit c = (let n = (of_char c :: nat) in 48 \<le> n \<and> n \<le> 57)"

definition digit_val :: "char \<Rightarrow> nat" where
  "digit_val c = of_char c - 48"

fun digits_of :: "string \<Rightarrow> string option" where
  "digits_of [] = None"
| "digits_of [c] = (if is_digit c then Some [c] else None)"
| "digits_of (c # d # cs) =
     (if \<not> is_digit c then None
      else if d = CHR ''_'' then map_option (Cons c) (digits_of cs)
      else map_option (Cons c) (digits_of (d # cs)))"

definition decimal :: "string \<Rightarrow> nat" where
  "decimal ds = foldl (\<lambda>acc c. 10 * acc + digit_val c) 0 ds"

definition py_int :: "string \<Rightarrow> py_error + int" where
  "py_int s =
     (let t = rev (dropWhile int_isspace (rev (dropWhile int_isspace s)));
          neg = (t \<noteq> [] \<and> hd t = CHR ''-'');
          body = (if t \<noteq> [] \<and> (hd t = CHR ''-'' \<or> hd t = CHR ''+'') then tl t else t)
      in case digits_of body of
           None \<Rightarrow> Inl ValueError
         | Some ds \<Rightarrow>
             if length ds > 4300 then Inl ValueError
             else Inr (if neg then - int (decimal ds) else int (decimal ds)))"

text \<open>
  The citation count: \<open>find('a', string=...)\<close> returns the first \<open>a\<close> element whose
  \<open>.string\<close> is a non-empty string containing \<open>'Cited by'\<close>; the inner \<open>try\<close> turns the
  \<open>IndexError\<close> of \<open>[1]\<close> and the \<open>ValueError\<close> of \<open>int\<close> into 0.
\<close>

definition cited_match :: "anchor \<Rightarrow> bool" where
  "cited_match a =
     (case a_string a of None \<Rightarrow> False | Some x \<Rightarrow> x \<noteq> [] \<and> contains ''Cited by'' x)"

definition extract_cited_by :: "result_div \<Rightarrow> int" where
  "extract_cited_by result =
     (case find cited_match (a_elems result) of
        None \<Rightarrow> 0
      | Some cited_elem \<Rightarrow>
          (case getitem (split (a_text cited_elem) ''Cited by '') 1 of
             Inl e \<Rightarrow> 0
           | Inr seg \<Rightarrow> (case py_int seg of Inl e \<Rightarrow> 0 | Inr n \<Rightarrow> n)))"

text \<open>The authors: the part of the byline before the first \<open>' - '\<close>, cut at the commas.\<close>

definition extract_authors :: "string \<Rightarrow> py_error + string list" where
  "extract_authors authors_text =
     (if authors_text \<noteq> [] then
        (case getitem (split authors_text '' - '') 0 of
           Inl e \<Rightarrow> Inl e
         | Inr author_part \<Rightarrow> Inr (map strip (split author_part '','')))
      else Inr [])"

text \<open>
  \<open>extract_paper_info\<close>: the outer \<open>try\<close> answers \<open>None\<close> to any exception of the body.
\<close>

definition extract_paper_info :: "result_div \<Rightarrow> paper option" where
  "extract_paper_info result =
     (let authors_text = (case div_gs_a result of None \<Rightarrow> [] | Some t \<Rightarrow> t)
      in case extract_authors authors_text of
           Inl e \<Rightarrow> None
         | Inr auths \<Rightarrow>
             Some \<lparr>title = (case h3_gs_rt result of None \<Rightarrow> ''Unknown Title'' | Some t \<Rightarrow> t),
                   authors = auths,
                   snippet = (case div_gs_rs result of None \<Rightarrow> [] | Some t \<Rightarrow> t),
                   cited_by = extract_cited_by result,
                   publication_info = authors_text,
                   matching_authors = None\<rparr>)"

section \<open>Notions of the specification\<close>

text \<open>
  The invariant of the store: every entry of the dictionary holds a list of tags that is
  not empty and has no tag twice.
\<close>

definition tags_inv :: "tag_manager \<Rightarrow> bool" where
  "tags_inv s = list_all (\<lambda>(author, ts). ts \<noteq> [] \<and> distinct ts) (author_tags s)"

text \<open>An author matches a selection when one of the author's tags is selected.\<close>

definition author_matches :: "string list \<Rightarrow> tag_manager \<Rightarrow> string \<Rightarrow> bool" where
  "author_matches selected_tags s auth =
     (set (fst (get_tags auth s)) \<inter> set selected_tags \<noteq> {})"

text \<open>
  The entry of \<open>matching_authors\<close> for an author: the name, all tags of the author, and
  those of them that are selected.
\<close>

definition annotation :: "string list \<Rightarrow> tag_manager \<Rightarrow> string \<Rightarrow> matching_author" where
  "annotation selected_tags s auth =
     \<lparr>name = auth, tags = fst (get_tags auth s),
      matching_tags = filter (\<lambda>tag. tag \<in> set selected_tags) (fst (get_tags auth s))\<rparr>"

text \<open>A kept paper is the paper with its \<open>matching_authors\<close> set.\<close>

definition annotate :: "string list \<Rightarrow> tag_manager \<Rightarrow> paper \<Rightarrow> paper" where
  "annotate selected_tags s p =
     p\<lparr>matching_authors :=
         Some (map (annotation selected_tags s)
                (filter (author_matches selected_tags s) (authors p)))\<rparr>"

text \<open>
  The text before the first occurrence of a separator (the whole text when there is
  none), and the text after it (\<open>None\<close> when there is none).
\<close>

fun before_first :: "string \<Rightarrow> string \<Rightarrow> string" where
  "before_first sep [] = []"
| "before_first sep (c # cs) = (if prefix sep (c # cs) then [] else c # before_first sep cs)"

fun after_first :: "string \<Rightarrow> string \<Rightarrow> string option" where
  "after_first sep [] = None"
| "after_first sep (c # cs) =
     (if prefix sep (c # cs) then Some (drop (length sep) (c # cs)) else after_first sep cs)"

section \<open>Example inputs\<close>

text \<open>The store and the papers of the specification's example.\<close>

definition ex_store :: tag_manager where
  "ex_store = \<lparr>author_tags = [(''Alice'', [''nlp'']), (''Bob'', [''vision''])],
               file_content = None\<rparr>"

definition ex_paper :: "string \<Rightarrow> string list \<Rightarrow> paper" where
  "ex_paper t auths =
     \<lparr>title = t, authors = auths, snippet = [], cited_by = 0, publication_info = [],
      matching_authors = None\<rparr>"

definition ex_papers :: "paper list" where
  "ex_papers =
     [ex_paper ''P1'' [''Alice'', ''Carol''], ex_paper ''P2'' [''Bob''],
      ex_paper ''P3'' [''Carol''], ex_paper ''P4'' []]"

text \<open>An \<open>a\<close> element with one string inside, and a result block around given parts.\<close>

definition text_anchor :: "string \<Rightarrow> anchor" where
  "text_anchor t = \<lparr>a_string = Some t, a_text = t\<rparr>"

definition ex_block :: "string option \<Rightarrow> anchor list \<Rightarrow> result_div" where
  "ex_block byline anchors =
     \<lparr>h3_gs_rt = Some ''A paper'', div_gs_a = byline, div_gs_rs = None, a_elems = anchors\<rparr>"

section \<open>The store after a mutation\<close>

lemma add_tag_key_present:
  "map_of (if map_of d author = None then AList.update author [] d else d) author \<noteq> None"
  by (simp add: AList.update_conv')

lemma add_tag_author_tags:
  "author_tags (add_tag author tag s) =
     (case map_of (author_tags s) author of
        None \<Rightarrow> AList.update author [tag] (author_tags s)
      | Some ts \<Rightarrow> if tag \<in> set ts then author_tags s
                   else AList.update author (ts @ [tag]) (author_tags s))"
  by (simp add: add_tag_def save_tags_def Let_def AList.update_conv' split: option.splits)

lemma add_tag_file_content:
  "file_content (add_tag author tag s) = Some (author_tags (add_tag author tag s))"
  by (simp add: add_tag_def save_tags_def Let_def)

lemma add_tag_more: "tag_manager.more (add_tag author tag s) = tag_manager.more s"
  by (simp add: add_tag_def save_tags_def Let_def)

lemma add_tag_lookup:
  "map_of (author_tags (add_tag author tag s)) author =
     (case map_of (author_tags s) author of
        None \<Rightarrow> Some [tag]
      | Some ts \<Rightarrow> if tag \<in> set ts then Some ts else Some (ts @ [tag]))"
  by (simp add: add_tag_author_tags AList.update_conv' split: option.splits)

lemma remove_tag_author_tags:
  "author_tags (remove_tag author tag s) =
     (case map_of (author_tags s) author of
        None \<Rightarrow> author_tags s
      | Some ts \<Rightarrow>
          if tag \<in> set ts then
            (if remove1 tag ts = [] then AList.delete author (author_tags s)
             else AList.update author (remove1 tag ts) (author_tags s))
          else author_tags s)"
  by (simp add: remove_tag_def save_tags_def Let_def AList.delete_update_same
      split: option.splits)

lemma remove_tag_lookup:
  "map_of (author_tags (remove_tag author tag s)) author =
     (case map_of (author_tags s) author of
        None \<Rightarrow> None
      | Some ts \<Rightarrow>
          if tag \<in> set ts then (if remove1 tag ts = [] then None else Some (remove1 tag ts))
          else Some ts)"
  by (simp add: remove_tag_author_tags AList.update_conv' AList.delete_conv'
      split: option.splits)

text \<open>The operations keep the keys of the dictionary distinct.\<close>

lemma add_tag_keys_distinct:
  "distinct (map fst (author_tags s)) \<Longrightarrow>
   distinct (map fst (author_tags (add_tag author tag s)))"
  by (simp add: add_tag_author_tags AList.distinct_update split: option.splits)

lemma remove_tag_keys_distinct:
  "distinct (map fst (author_tags s)) \<Longrightarrow>
   distinct (map fst (author_tags (remove_tag author tag s)))"
  by (simp add: remove_tag_author_tags AList.distinct_update AList.distinct_delete
      split: option.splits)

lemma set_update_subset: "set (AList.update k v al) \<subseteq> insert (k, v) (set al)"
  by (induction al) auto

lemma set_delete_subset: "set (AList.delete k al) \<subseteq> set al"
  by (auto simp: AList.delete_eq)

section \<open>The queries\<close>

lemma get_tags_pair: "get_tags author s = (fst (get_tags author s), s)"
  by (simp add: get_tags_def split: option.splits)

lemma fst_get_tags:
  "fst (get_tags author s) =
     (case map_of (author_tags s) author of None \<Rightarrow> [] | Some ts \<Rightarrow> ts)"
  by (simp add: get_tags_def split: option.splits)

lemma all_tags_loop_eq: "all_tags_loop tss acc = acc \<union> \<Union> (set ` set tss)"
  by (induction tss arbitrary: acc) auto

lemma set_get_all_tags:
  "set (fst (get_all_tags s)) = \<Union> (set ` snd ` set (author_tags s))"
  by (simp add: get_all_tags_def all_tags_loop_eq)

section \<open>The invariant of the store\<close>

lemma tags_inv_lookup:
  "tags_inv s \<Longrightarrow> map_of (author_tags s) a = Some ts \<Longrightarrow> ts \<noteq> [] \<and> distinct ts"
  by (auto simp: tags_inv_def list_all_iff dest!: map_of_SomeD)

lemma tags_inv_update:
  assumes "tags_inv s" "ts \<noteq> []" "distinct ts"
  shows "list_all (\<lambda>(author, ts). ts \<noteq> [] \<and> distinct ts)
           (AList.update a ts (author_tags s))"
  using assms set_update_subset [of a ts "author_tags s"]
  by (auto simp: tags_inv_def list_all_iff)

lemma tags_inv_delete:
  assumes "tags_inv s"
  shows "list_all (\<lambda>(author, ts). ts \<noteq> [] \<and> distinct ts)
           (AList.delete a (author_tags s))"
  using assms set_delete_subset [of a "author_tags s"]
  by (auto simp: tags_inv_def list_all_iff)

lemma tags_inv_add_tag: "tags_inv s \<Longrightarrow> tags_inv (add_tag a t s)"
  unfolding tags_inv_def [of "add_tag a t s"] add_tag_author_tags
  by (auto split: option.splits intro!: tags_inv_update dest: tags_inv_lookup
      simp: tags_inv_def [symmetric])

lemma tags_inv_remove_tag: "tags_inv s \<Longrightarrow> tags_inv (remove_tag a t s)"
  unfolding tags_inv_def [of "remove_tag a t s"] remove_tag_author_tags
  by (auto split: option.splits intro!: tags_inv_update tags_inv_delete
      dest: tags_inv_lookup simp: tags_inv_def [symmetric] distinct_remove1)

lemma last_tag_removed:
  assumes "fst (get_tags a s) = [t]"
  shows "author_tags (remove_tag a t s) = AList.delete a (author_tags s)"
proof -
  from assms have "map_of (author_tags s) a = Some [t]"
    by (simp add: fst_get_tags split: option.splits)
  then show ?thesis
    by (simp add: remove_tag_author_tags)
qed

lemma add_tag_twice: "add_tag a t (add_tag a t s) = add_tag a t s"
proof (rule tag_manager.equality)
  have known: "\<exists>ts. map_of (author_tags (add_tag a t s)) a = Some ts \<and> t \<in> set ts"
    by (simp add: add_tag_lookup split: option.splits)
  show same: "author_tags (add_tag a t (add_tag a t s)) = author_tags (add_tag a t s)"
    using known by (subst add_tag_author_tags) auto
  show "file_content (add_tag a t (add_tag a t s)) = file_content (add_tag a t s)"
    by (simp add: add_tag_file_content same)
  show "tag_manager.more (add_tag a t (add_tag a t s)) = tag_manager.more (add_tag a t s)"
    by (simp add: add_tag_more)
qed

section \<open>The claims about the tag store\<close>

text \<open>
  Claim C4. The invariant of the store, that every entry holds a non-empty list of tags
  without duplicates, holds of the empty store and is kept by \<open>add_tag\<close> and by
  \<open>remove_tag\<close>. When \<open>remove_tag\<close> takes the last tag of an author, the entry of the author
  is deleted: the author is no key any more, \<open>get_tags\<close> answers the empty list, and
  \<open>get_all_tags\<close> lists the tags of the other entries only.
\<close>

theorem store_invariant_preserved:
  "tags_inv \<lparr>author_tags = [], file_content = fc\<rparr> \<and>
   (tags_inv s \<longrightarrow> tags_inv (add_tag a t s) \<and> tags_inv (remove_tag a t s)) \<and>
   (fst (get_tags a s) = [t] \<longrightarrow>
      a \<notin> fst ` set (author_tags (remove_tag a t s)) \<and>
      fst (get_tags a (remove_tag a t s)) = [] \<and>
      set (fst (get_all_tags (remove_tag a t s))) =
        \<Union> (set ` snd ` {e \<in> set (author_tags s). fst e \<noteq> a}))"
proof (intro conjI impI)
  show "tags_inv \<lparr>author_tags = [], file_content = fc\<rparr>"
    by (simp add: tags_inv_def)
next
  assume "tags_inv s"
  then show "tags_inv (add_tag a t s)" by (rule tags_inv_add_tag)
next
  assume "tags_inv s"
  then show "tags_inv (remove_tag a t s)" by (rule tags_inv_remove_tag)
next
  assume last: "fst (get_tags a s) = [t]"
  show "a \<notin> fst ` set (author_tags (remove_tag a t s))"
    by (simp only: last_tag_removed [OF last] AList.delete_notin_dom not_False_eq_True)
next
  assume last: "fst (get_tags a s) = [t]"
  have "map_of (author_tags (remove_tag a t s)) a = None"
    by (simp add: last_tag_removed [OF last] AList.delete_conv')
  then show "fst (get_tags a (remove_tag a t s)) = []"
    by (simp add: fst_get_tags)
next
  assume last: "fst (get_tags a s) = [t]"
  have "set (AList.delete a (author_tags s)) = {e \<in> set (author_tags s). fst e \<noteq> a}"
    by (auto simp: AList.delete_eq)
  then show "set (fst (get_all_tags (remove_tag a t s))) =
      \<Union> (set ` snd ` {e \<in> set (author_tags s). fst e \<noteq> a})"
    by (simp add: set_get_all_tags last_tag_removed [OF last])
qed

theorem store_invariant_preserved_witness:
  "tags_inv ex_store \<and>
   tags_inv (add_tag ''Bob'' ''nlp'' ex_store) \<and>
   tags_inv (remove_tag ''Bob'' ''vision'' ex_store) \<and>
   fst (get_tags ''Bob'' ex_store) = [''vision''] \<and>
   ''Bob'' \<notin> fst ` set (author_tags (remove_tag ''Bob'' ''vision'' ex_store)) \<and>
   fst (get_tags ''Bob'' (remove_tag ''Bob'' ''vision'' ex_store)) = [] \<and>
   set (fst (get_all_tags (remove_tag ''Bob'' ''vision'' ex_store))) = {''nlp''}"
proof -
  have inv: "tags_inv ex_store"
    by (simp add: tags_inv_def ex_store_def)
  have last: "fst (get_tags ''Bob'' ex_store) = [''vision'']"
    by (simp add: get_tags_def ex_store_def)
  have others: "\<Union> (set ` snd ` {e \<in> set (author_tags ex_store). fst e \<noteq> ''Bob''}) = {''nlp''}"
    by (auto simp: ex_store_def)
  from store_invariant_preserved [of None ex_store "''Bob''" "''nlp''"]
    store_invariant_preserved [of None ex_store "''Bob''" "''vision''"] inv last others
  show ?thesis by simp
qed

text \<open>
  Claim C5. \<open>add_tag\<close> is idempotent: a second \<open>add_tag\<close> of the same author and tag
  leaves the store, and so what \<open>get_tags\<close> answers for the author, as the first left them;
  and \<open>add_tag\<close> of a tag the author already has leaves the dictionary as it was.
\<close>

theorem add_tag_idempotent:
  "add_tag a t (add_tag a t s) = add_tag a t s \<and>
   fst (get_tags a (add_tag a t (add_tag a t s))) = fst (get_tags a (add_tag a t s)) \<and>
   (t \<in> set (fst (get_tags a s)) \<longrightarrow> author_tags (add_tag a t s) = author_tags s)"
proof (intro conjI impI)
  show "add_tag a t (add_tag a t s) = add_tag a t s"
    by (rule add_tag_twice)
  then show "fst (get_tags a (add_tag a t (add_tag a t s))) = fst (get_tags a (add_tag a t s))"
    by simp
next
  assume "t \<in> set (fst (get_tags a s))"
  then show "author_tags (add_tag a t s) = author_tags s"
    by (auto simp: fst_get_tags add_tag_author_tags split: option.splits)
qed

theorem add_tag_idempotent_witness:
  "''nlp'' \<in> set (fst (get_tags ''Alice'' ex_store)) \<and>
   author_tags (add_tag ''Alice'' ''nlp'' ex_store) = author_tags ex_store \<and>
   add_tag ''Bob'' ''nlp'' (add_tag ''Bob'' ''nlp'' ex_store) = add_tag ''Bob'' ''nlp'' ex_store \<and>
   fst (get_tags ''Bob'' (add_tag ''Bob'' ''nlp'' (add_tag ''Bob'' ''nlp'' ex_store))) =
     [''vision'', ''nlp'']"
proof -
  have present: "''nlp'' \<in> set (fst (get_tags ''Alice'' ex_store))"
    by (simp add: get_tags_def ex_store_def)
  have once: "fst (get_tags ''Bob'' (add_tag ''Bob'' ''nlp'' ex_store)) = [''vision'', ''nlp'']"
    by (simp add: fst_get_tags add_tag_lookup ex_store_def)
  from add_tag_idempotent [of "''Alice''" "''nlp''" ex_store]
    add_tag_idempotent [of "''Bob''" "''nlp''" ex_store] present once
  show ?thesis by simp
qed

text \<open>
  Claim C9. \<open>get_all_tags\<close> answers the tags of all entries of the dictionary, each tag
  once, in ascending lexicographic order.
\<close>

theorem get_all_tags_sorted_distinct:
  "sorted (fst (get_all_tags s)) \<and>
   distinct (fst (get_all_tags s)) \<and>
   set (fst (get_all_tags s)) = \<Union> (set ` snd ` set (author_tags s))"
  by (simp add: set_get_all_tags) (simp add: get_all_tags_def)

text \<open>A tag of two authors is listed once.\<close>

lemma get_all_tags_example:
  "fst (get_all_tags
     \<lparr>author_tags = [(''Alice'', [''nlp'', ''ml'']), (''Bob'', [''vision'', ''nlp''])],
      file_content = None\<rparr>) = [''ml'', ''nlp'', ''vision'']"
  by code_simp

section \<open>The loops of the filter\<close>

lemma filter_nonempty_iff:
  "filter (\<lambda>tag. tag \<in> set sel) ts \<noteq> [] \<longleftrightarrow> set ts \<inter> set sel \<noteq> {}"
  by (auto simp: filter_empty_conv)

lemma list_ex_iff_inter:
  "list_ex (\<lambda>tag. tag \<in> set ts) sel \<longleftrightarrow> set ts \<inter> set sel \<noteq> {}"
  by (auto simp: list_ex_iff)

lemma matching_loop_eq:
  "matching_loop auths sel acc s =
     (acc @ map (annotation sel s) (filter (author_matches sel s) auths), s)"
proof (induction auths arbitrary: acc)
  case Nil
  show ?case by simp
next
  case (Cons auth rest)
  show ?case
    apply (subst matching_loop.simps)
    apply (subst get_tags_pair)
    apply (simp add: Cons.IH Let_def filter_nonempty_iff)
    apply (simp add: author_matches_def [of sel s auth] annotation_def [of sel s auth])
    done
qed

lemma author_loop_eq:
  "author_loop p auths sel s =
     (if \<exists>a \<in> set auths. author_matches sel s a then Some (annotate sel s p) else None, s)"
proof (induction auths)
  case Nil
  show ?case by simp
next
  case (Cons auth rest)
  show ?case
    apply (subst author_loop.simps)
    apply (subst get_tags_pair)
    apply (simp add: Cons.IH list_ex_iff_inter matching_loop_eq annotate_def)
    apply (simp add: author_matches_def [of sel s auth])
    done
qed

lemma paper_loop_eq:
  "paper_loop papers sel acc s =
     (acc @ map (annotate sel s)
              (filter (\<lambda>p. \<exists>a \<in> set (authors p). author_matches sel s a) papers), s)"
proof (induction papers arbitrary: acc)
  case Nil
  show ?case by simp
next
  case (Cons p rest)
  show ?case
    by (simp add: author_loop_eq Cons.IH)
qed

lemma filter_papers_by_tags_eq:
  "sel \<noteq> [] \<Longrightarrow>
   filter_papers_by_tags papers sel s =
     (map (annotate sel s)
        (filter (\<lambda>p. \<exists>a \<in> set (authors p). author_matches sel s a) papers), s)"
  by (simp add: filter_papers_by_tags_def paper_loop_eq)

text \<open>The example: of the four papers, the selection \<open>nlp\<close> keeps the first.\<close>

lemma ex_author_matches:
  "author_matches [''nlp''] ex_store ''Alice''"
  "\<not> author_matches [''nlp''] ex_store ''Bob''"
  "\<not> author_matches [''nlp''] ex_store ''Carol''"
  by (simp_all add: author_matches_def get_tags_def ex_store_def)

lemma ex_kept:
  "filter (\<lambda>p. \<exists>a \<in> set (authors p). author_matches [''nlp''] ex_store a) ex_papers =
     [ex_paper ''P1'' [''Alice'', ''Carol'']]"
  by (simp add: ex_papers_def ex_paper_def ex_author_matches)

lemma ex_filtered:
  "fst (filter_papers_by_tags ex_papers [''nlp''] ex_store) =
     [(ex_paper ''P1'' [''Alice'', ''Carol''])
        \<lparr>matching_authors :=
           Some [\<lparr>name = ''Alice'', tags = [''nlp''], matching_tags = [''nlp'']\<rparr>]\<rparr>]"
proof -
  have "annotation [''nlp''] ex_store ''Alice'' =
      \<lparr>name = ''Alice'', tags = [''nlp''], matching_tags = [''nlp'']\<rparr>"
    by (simp add: annotation_def get_tags_def ex_store_def)
  then show ?thesis
    by (simp add: filter_papers_by_tags_eq ex_kept annotate_def)
      (simp add: ex_paper_def ex_author_matches)
qed

section \<open>The claims about the filter\<close>

text \<open>
  Claim C1. For a selection of tags that is not empty, the papers that
  \<open>filter_papers_by_tags\<close> answers are, in their order and each taken once, the papers of
  the input with an author who has a selected tag, each with its \<open>matching_authors\<close> set.
  No paper of the result has an empty list of authors.
\<close>

theorem filter_keeps_matching_papers:
  "selected_tags \<noteq> [] \<Longrightarrow>
   list_all2 (\<lambda>q p. \<exists>ms. q = p\<lparr>matching_authors := Some ms\<rparr>)
     (fst (filter_papers_by_tags papers selected_tags s))
     (filter (\<lambda>p. \<exists>a \<in> set (authors p). author_matches selected_tags s a) papers) \<and>
   (\<forall>q \<in> set (fst (filter_papers_by_tags papers selected_tags s)). authors q \<noteq> [])"
proof (intro conjI)
  assume sel: "selected_tags \<noteq> []"
  show "list_all2 (\<lambda>q p. \<exists>ms. q = p\<lparr>matching_authors := Some ms\<rparr>)
     (fst (filter_papers_by_tags papers selected_tags s))
     (filter (\<lambda>p. \<exists>a \<in> set (authors p). author_matches selected_tags s a) papers)"
    unfolding filter_papers_by_tags_eq [OF sel] fst_conv list_all2_map1
    by (rule list_all2_refl) (auto simp: annotate_def)
  show "\<forall>q \<in> set (fst (filter_papers_by_tags papers selected_tags s)). authors q \<noteq> []"
    unfolding filter_papers_by_tags_eq [OF sel]
    by (auto simp: annotate_def)
qed

theorem filter_keeps_matching_papers_witness:
  "[''nlp''] \<noteq> ([] :: string list) \<and>
   list_all2 (\<lambda>q p. \<exists>ms. q = p\<lparr>matching_authors := Some ms\<rparr>)
     (fst (filter_papers_by_tags ex_papers [''nlp''] ex_store))
     [ex_paper ''P1'' [''Alice'', ''Carol'']] \<and>
   list_all (\<lambda>q. authors q \<noteq> []) (fst (filter_papers_by_tags ex_papers [''nlp''] ex_store))"
proof -
  have sel: "[''nlp''] \<noteq> ([] :: string list)" by simp
  from filter_keeps_matching_papers [OF sel, of ex_papers ex_store]
  show ?thesis
    unfolding ex_kept by (simp add: list_all_iff)
qed

text \<open>
  Claim C2. For a selection of tags that is not empty, \<open>matching_authors\<close> of a paper of
  the result lists, in the order of the paper's authors, the authors with a selected tag
  (all of them, whichever author let the paper in), each with the name, all tags of the
  author and the selected ones among them.
\<close>

theorem matching_authors_complete:
  "selected_tags \<noteq> [] \<Longrightarrow>
   \<forall>q \<in> set (fst (filter_papers_by_tags papers selected_tags s)).
     matching_authors q =
       Some (map (annotation selected_tags s)
              (filter (author_matches selected_tags s) (authors q)))"
  by (auto simp: filter_papers_by_tags_eq annotate_def)

theorem matching_authors_complete_witness:
  "[''nlp''] \<noteq> ([] :: string list) \<and>
   map matching_authors (fst (filter_papers_by_tags ex_papers [''nlp''] ex_store)) =
     [Some [\<lparr>name = ''Alice'', tags = [''nlp''], matching_tags = [''nlp'']\<rparr>]] \<and>
   map matching_authors
     (fst (filter_papers_by_tags [ex_paper ''P5'' [''Bob'', ''Carol'', ''Alice'']]
        [''nlp'', ''vision''] ex_store)) =
     [Some [\<lparr>name = ''Bob'', tags = [''vision''], matching_tags = [''vision'']\<rparr>,
            \<lparr>name = ''Alice'', tags = [''nlp''], matching_tags = [''nlp'']\<rparr>]]"
proof -
  have sel: "[''nlp''] \<noteq> ([] :: string list)" by simp
  have two: "fst (filter_papers_by_tags [ex_paper ''P5'' [''Bob'', ''Carol'', ''Alice'']]
        [''nlp'', ''vision''] ex_store) =
      [annotate [''nlp'', ''vision''] ex_store (ex_paper ''P5'' [''Bob'', ''Carol'', ''Alice''])]"
    by (simp add: filter_papers_by_tags_eq)
      (simp add: ex_paper_def author_matches_def get_tags_def ex_store_def)
  have ann: "matching_authors
      (annotate [''nlp'', ''vision''] ex_store (ex_paper ''P5'' [''Bob'', ''Carol'', ''Alice''])) =
      Some [\<lparr>name = ''Bob'', tags = [''vision''], matching_tags = [''vision'']\<rparr>,
            \<lparr>name = ''Alice'', tags = [''nlp''], matching_tags = [''nlp'']\<rparr>]"
    by (simp add: annotate_def ex_paper_def author_matches_def annotation_def get_tags_def
        ex_store_def)
  from matching_authors_complete [OF sel, of ex_papers ex_store]
  show ?thesis
    by (simp add: ex_filtered two ann)
qed

text \<open>
  Claim C6. With the empty selection, \<open>filter_papers_by_tags\<close> answers the list of papers it
  was given, as it was given, and leaves the store as it was.
\<close>

theorem filter_empty_selection_identity:
  "filter_papers_by_tags papers [] s = (papers, s)"
  by (simp add: filter_papers_by_tags_def)

text \<open>
  Claim C10. The queries \<open>get_tags\<close>, \<open>get_all_tags\<close> and \<open>filter_papers_by_tags\<close> leave the
  store as it was. \<open>get_tags\<close> answers the empty list for an author who is no key, and the
  tags of an author in the order in which \<open>add_tag\<close> added them: a new tag comes last,
  and \<open>remove_tag\<close> takes one tag out of the list and keeps the order of the others.
\<close>

theorem queries_leave_store:
  "snd (get_tags author s) = s \<and>
   snd (get_all_tags s) = s \<and>
   snd (filter_papers_by_tags papers selected_tags s) = s \<and>
   (map_of (author_tags s) author = None \<longrightarrow> fst (get_tags author s) = []) \<and>
   fst (get_tags author (add_tag author tag s)) =
     (if tag \<in> set (fst (get_tags author s)) then fst (get_tags author s)
      else fst (get_tags author s) @ [tag]) \<and>
   fst (get_tags author (remove_tag author tag s)) = remove1 tag (fst (get_tags author s))"
proof (intro conjI impI)
  show "snd (get_tags author s) = s"
    by (subst get_tags_pair) simp
  show "snd (get_all_tags s) = s"
    by (simp add: get_all_tags_def)
  show "snd (filter_papers_by_tags papers selected_tags s) = s"
    by (simp add: filter_papers_by_tags_def paper_loop_eq)
  show "fst (get_tags author (add_tag author tag s)) =
     (if tag \<in> set (fst (get_tags author s)) then fst (get_tags author s)
      else fst (get_tags author s) @ [tag])"
    by (simp add: fst_get_tags add_tag_lookup split: option.splits)
  show "fst (get_tags author (remove_tag author tag s)) = remove1 tag (fst (get_tags author s))"
    by (simp add: fst_get_tags remove_tag_lookup remove1_idem split: option.splits)
next
  assume "map_of (author_tags s) author = None"
  then show "fst (get_tags author s) = []"
    by (simp add: fst_get_tags)
qed

theorem queries_leave_store_witness:
  "map_of (author_tags ex_store) ''Carol'' = None \<and>
   fst (get_tags ''Carol'' ex_store) = [] \<and>
   snd (get_tags ''Carol'' ex_store) = ex_store \<and>
   snd (get_all_tags ex_store) = ex_store \<and>
   snd (filter_papers_by_tags ex_papers [''nlp''] ex_store) = ex_store \<and>
   fst (get_tags ''Bob'' (add_tag ''Bob'' ''nlp'' ex_store)) = [''vision'', ''nlp'']"
proof -
  have unknown: "map_of (author_tags ex_store) ''Carol'' = None"
    by (simp add: ex_store_def)
  have bob: "fst (get_tags ''Bob'' ex_store) = [''vision'']"
    by (simp add: get_tags_def ex_store_def)
  from queries_leave_store [of "''Carol''" ex_store ex_papers "[''nlp'']" "''nlp''"]
    queries_leave_store [of "''Bob''" ex_store ex_papers "[''nlp'']" "''nlp''"] unknown bob
  show ?thesis by simp
qed

section \<open>Cutting strings\<close>

lemma before_first_whole: "after_first sep s = None \<Longrightarrow> before_first sep s = s"
  by (induction s) (auto split: if_splits)

lemma split_from_eq:
  "sep \<noteq> [] \<Longrightarrow>
   split_from sep acc s =
     (case after_first sep s of
        None \<Rightarrow> [rev acc @ s]
      | Some r \<Rightarrow> (rev acc @ before_first sep s) # split_from sep [] r)"
proof (induction s arbitrary: acc)
  case Nil
  then show ?case by simp
next
  case (Cons c cs)
  show ?case
  proof (cases "prefix sep (c # cs)")
    case True
    have "drop (length sep) (c # cs) = drop (length sep - 1) cs"
      using Cons.prems by (cases sep) simp_all
    with True Cons.prems show ?thesis by simp
  next
    case False
    with Cons.prems Cons.IH [of "c # acc"] show ?thesis
      by (simp split: option.splits)
  qed
qed

lemma split_eq:
  "sep \<noteq> [] \<Longrightarrow>
   split s sep =
     (case after_first sep s of None \<Rightarrow> [s] | Some r \<Rightarrow> before_first sep s # split r sep)"
  by (simp add: split_def split_from_eq [of sep "[]" s] split: option.splits)

lemma split_head: "sep \<noteq> [] \<Longrightarrow> \<exists>rest. split s sep = before_first sep s # rest"
  by (simp add: split_eq [of sep s] before_first_whole split: option.splits)

text \<open>The separator found first stands between the two parts.\<close>

lemma first_occurrence:
  "after_first sep s = Some r \<Longrightarrow> s = before_first sep s @ sep @ r"
proof (induction s)
  case Nil
  then show ?case by simp
next
  case (Cons c cs)
  then show ?case
    by (auto split: if_splits simp: prefix_def)
qed

lemma contains_after_first:
  "sep \<noteq> [] \<Longrightarrow> contains sep s \<longleftrightarrow> after_first sep s \<noteq> None"
  by (induction s) auto

lemma getitem_split_0: "sep \<noteq> [] \<Longrightarrow> getitem (split s sep) 0 = Inr (before_first sep s)"
proof -
  assume sep: "sep \<noteq> []"
  from split_head [OF sep, of s] obtain rest where "split s sep = before_first sep s # rest" ..
  then show ?thesis by (simp add: getitem_def)
qed

lemma getitem_split_1:
  "sep \<noteq> [] \<Longrightarrow>
   getitem (split s sep) 1 =
     (case after_first sep s of
        None \<Rightarrow> Inl IndexError
      | Some r \<Rightarrow> Inr (before_first sep r))"
proof (cases "after_first sep s")
  case None
  assume "sep \<noteq> []"
  with None show ?thesis by (simp add: split_eq [of sep s] getitem_def)
next
  case (Some r)
  assume sep: "sep \<noteq> []"
  from split_head [OF sep, of r] obtain rest where "split r sep = before_first sep r # rest" ..
  with Some sep show ?thesis by (simp add: split_eq [of sep s] getitem_def)
qed

lemma after_first_prefix: "sep \<noteq> [] \<Longrightarrow> after_first sep (sep @ r) = Some r"
  by (cases sep) simp_all

lemma before_first_absent:
  "sep \<noteq> [] \<Longrightarrow> hd sep \<notin> set s \<Longrightarrow> before_first sep s = s"
  by (induction s) (auto simp: prefix_def Cons_eq_append_conv)

section \<open>Reading a number\<close>

lemma is_digit_not_space: "is_digit c \<Longrightarrow> \<not> int_isspace c"
  by (auto simp: is_digit_def int_isspace_def Let_def)

lemma is_digit_not_sign:
  "is_digit c \<Longrightarrow>
   c \<noteq> CHR ''-'' \<and> c \<noteq> CHR ''+'' \<and> c \<noteq> CHR ''_'' \<and> c \<noteq> CHR ''C''"
  by (auto simp: is_digit_def Let_def)

lemma digits_of_digits: "ds \<noteq> [] \<Longrightarrow> list_all is_digit ds \<Longrightarrow> digits_of ds = Some ds"
  by (induction ds rule: digits_of.induct) (auto simp: is_digit_not_sign)

lemma dropWhile_hd: "s \<noteq> [] \<Longrightarrow> \<not> P (hd s) \<Longrightarrow> dropWhile P s = s"
  by (cases s) simp_all

lemma py_int_digits:
  assumes "ds \<noteq> []" "list_all is_digit ds" "length ds \<le> 4300"
  shows "py_int ds = Inr (int (decimal ds))"
proof -
  have h: "is_digit (hd ds)" and l: "is_digit (last ds)"
    using assms by (auto simp: list_all_iff)
  have "dropWhile int_isspace ds = ds"
    using assms(1) h by (simp add: dropWhile_hd is_digit_not_space)
  moreover have "dropWhile int_isspace (rev ds) = rev ds"
    using assms(1) l by (simp add: dropWhile_hd is_digit_not_space hd_rev)
  ultimately have t: "rev (dropWhile int_isspace (rev (dropWhile int_isspace ds))) = ds"
    by simp
  show ?thesis
    unfolding py_int_def t Let_def
    using assms h by (simp add: digits_of_digits is_digit_not_sign)
qed

section \<open>The extraction never fails\<close>

lemma extract_authors_eq:
  "extract_authors t =
     Inr (if t \<noteq> [] then map strip (split (before_first '' - '' t) '','') else [])"
  by (simp add: extract_authors_def getitem_split_0)

lemma extract_paper_info_eq:
  "extract_paper_info result =
     Some \<lparr>title = (case h3_gs_rt result of None \<Rightarrow> ''Unknown Title'' | Some t \<Rightarrow> t),
           authors = (case div_gs_a result of
                        None \<Rightarrow> []
                      | Some t \<Rightarrow>
                          if t \<noteq> [] then map strip (split (before_first '' - '' t) '','')
                          else []),
           snippet = (case div_gs_rs result of None \<Rightarrow> [] | Some t \<Rightarrow> t),
           cited_by = extract_cited_by result,
           publication_info = (case div_gs_a result of None \<Rightarrow> [] | Some t \<Rightarrow> t),
           matching_authors = None\<rparr>"
  by (simp add: extract_paper_info_def extract_authors_eq Let_def split: option.splits)

lemma extract_cited_by_eq:
  "extract_cited_by result =
     (case find cited_match (a_elems result) of
        None \<Rightarrow> 0
      | Some a \<Rightarrow>
          (case after_first ''Cited by '' (a_text a) of
             None \<Rightarrow> 0
           | Some r \<Rightarrow>
               (case py_int (before_first ''Cited by '' r) of Inl e \<Rightarrow> 0 | Inr n \<Rightarrow> n)))"
proof -
  have sep: "''Cited by '' \<noteq> []" by simp
  show ?thesis
    unfolding extract_cited_by_def getitem_split_1 [OF sep]
    by (simp split: option.splits)
qed

section \<open>The claim about empty arguments of \<open>add_tag\<close>\<close>

lemma add_tag_unchanged_iff:
  "author_tags (add_tag author tag s) = author_tags s \<longleftrightarrow>
   tag \<in> set (fst (get_tags author s))"
proof
  assume same: "author_tags (add_tag author tag s) = author_tags s"
  have "tag \<in> set (fst (get_tags author (add_tag author tag s)))"
    by (simp add: fst_get_tags add_tag_lookup split: option.splits)
  then show "tag \<in> set (fst (get_tags author s))"
    by (simp add: fst_get_tags same)
next
  assume "tag \<in> set (fst (get_tags author s))"
  then show "author_tags (add_tag author tag s) = author_tags s"
    by (auto simp: fst_get_tags add_tag_author_tags split: option.splits)
qed

text \<open>
  Claim C3, as amended. \<open>TagManager.add_tag\<close> takes its arguments as they are given: it
  neither trims them nor looks whether they are empty, and it leaves the dictionary as it
  was exactly when the author already has the tag. The trimming and the test for empty
  arguments are in the handler of the route \<open>/add_tag\<close>: it trims both arguments; when one
  of them is then empty, it answers the error and leaves the store as it was, without a
  call of \<open>add_tag\<close>; otherwise it calls \<open>add_tag\<close> with the trimmed arguments.
\<close>

theorem add_tag_route_rejects_empty:
  "(strip (get_or_empty (req_author data)) = [] \<or> strip (get_or_empty (req_tag data)) = [] \<longrightarrow>
      add_tag_route data s = (Error400 ''Author and tag are required'', s)) \<and>
   (strip (get_or_empty (req_author data)) \<noteq> [] \<and>
    strip (get_or_empty (req_tag data)) \<noteq> [] \<longrightarrow>
      add_tag_route data s =
        (Success,
         add_tag (strip (get_or_empty (req_author data)))
           (strip (get_or_empty (req_tag data))) s)) \<and>
   tag \<in> set (fst (get_tags author (add_tag author tag s))) \<and>
   (author_tags (add_tag author tag s) = author_tags s \<longleftrightarrow>
      tag \<in> set (fst (get_tags author s)))"
proof (intro conjI impI)
  assume "strip (get_or_empty (req_author data)) = [] \<or> strip (get_or_empty (req_tag data)) = []"
  then show "add_tag_route data s = (Error400 ''Author and tag are required'', s)"
    by (simp only: add_tag_route_def Let_def if_True)
next
  assume "strip (get_or_empty (req_author data)) \<noteq> [] \<and>
    strip (get_or_empty (req_tag data)) \<noteq> []"
  then show "add_tag_route data s =
        (Success,
         add_tag (strip (get_or_empty (req_author data)))
           (strip (get_or_empty (req_tag data))) s)"
    by (simp add: add_tag_route_def Let_def)
next
  show "tag \<in> set (fst (get_tags author (add_tag author tag s)))"
    by (simp add: fst_get_tags add_tag_lookup split: option.splits)
  show "author_tags (add_tag author tag s) = author_tags s \<longleftrightarrow>
      tag \<in> set (fst (get_tags author s))"
    by (rule add_tag_unchanged_iff)
qed

theorem add_tag_route_rejects_empty_witness:
  "strip (get_or_empty (req_author \<lparr>req_author = Some ''  '', req_tag = Some ''nlp''\<rparr>)) = [] \<and>
   add_tag_route \<lparr>req_author = Some ''  '', req_tag = Some ''nlp''\<rparr> ex_store =
     (Error400 ''Author and tag are required'', ex_store) \<and>
   add_tag_route \<lparr>req_author = Some ''Alice'', req_tag = None\<rparr> ex_store =
     (Error400 ''Author and tag are required'', ex_store) \<and>
   add_tag_route \<lparr>req_author = Some '' Bob '', req_tag = Some ''nlp ''\<rparr> ex_store =
     (Success, add_tag ''Bob'' ''nlp'' ex_store) \<and>
   author_tags (add_tag ''Bob'' ''nlp'' ex_store) \<noteq> author_tags ex_store"
proof -
  have blank: "strip ''  '' = []" and none: "strip [] = []"
    and bob: "strip '' Bob '' = ''Bob''" and nlp: "strip ''nlp '' = ''nlp''"
    and alice: "strip ''Alice'' = ''Alice''" and nlp': "strip ''nlp'' = ''nlp''"
    by (simp_all add: strip_def py_isspace_def)
  have absent: "''nlp'' \<notin> set (fst (get_tags ''Bob'' ex_store))"
    by (simp add: get_tags_def ex_store_def)
  from add_tag_route_rejects_empty
      [of "\<lparr>req_author = Some ''  '', req_tag = Some ''nlp''\<rparr>" ex_store "''nlp''" "''Bob''"]
    add_tag_route_rejects_empty
      [of "\<lparr>req_author = Some ''Alice'', req_tag = None\<rparr>" ex_store "''nlp''" "''Bob''"]
    add_tag_route_rejects_empty
      [of "\<lparr>req_author = Some '' Bob '', req_tag = Some ''nlp ''\<rparr>" ex_store "''nlp''" "''Bob''"]
    absent
  show ?thesis
    by (simp add: get_or_empty_def blank none bob nlp alice nlp')
qed

text \<open>
  Against claim C3 as it was stated: an author of one blank is empty after trimming, and
  \<open>add_tag\<close> of the store enters it, untrimmed, as a new key.
\<close>

theorem add_tag_blank_author_counterexample:
  "strip '' '' = [] \<and>
   author_tags (add_tag '' '' ''nlp'' \<lparr>author_tags = [], file_content = None\<rparr>) =
     [('' '', [''nlp''])]"
  by (simp add: strip_def py_isspace_def add_tag_def save_tags_def Let_def)

section \<open>The claims about the extraction\<close>

text \<open>
  Claim C7, as amended. The citation count is read from the first \<open>a\<close> element whose
  string is not empty and contains \<open>Cited by\<close> (without a blank at the end): it is the
  integer that \<open>int\<close> reads in the text of that element after the first \<open>Cited by \<close>, up
  to the next one. It is 0 when no element is found, when the text of the element found
  has no \<open>Cited by \<close>, and when \<open>int\<close> fails. When the text is \<open>Cited by \<close> and then at
  most 4300 decimal digits, the count is their number. No error is raised: the extraction
  answers a paper.
\<close>

theorem cited_by_of_first_anchor:
  "extract_cited_by result =
     (case find cited_match (a_elems result) of
        None \<Rightarrow> 0
      | Some a \<Rightarrow>
          (case after_first ''Cited by '' (a_text a) of
             None \<Rightarrow> 0
           | Some r \<Rightarrow>
               (case py_int (before_first ''Cited by '' r) of Inl e \<Rightarrow> 0 | Inr n \<Rightarrow> n))) \<and>
   (find cited_match (a_elems result) = Some a \<and> a_text a = ''Cited by '' @ ds \<and>
    ds \<noteq> [] \<and> list_all is_digit ds \<and> length ds \<le> 4300 \<longrightarrow>
      extract_cited_by result = int (decimal ds)) \<and>
   map_option cited_by (extract_paper_info result) = Some (extract_cited_by result)"
proof (intro conjI impI)
  show "extract_cited_by result =
     (case find cited_match (a_elems result) of
        None \<Rightarrow> 0
      | Some a \<Rightarrow>
          (case after_first ''Cited by '' (a_text a) of
             None \<Rightarrow> 0
           | Some r \<Rightarrow>
               (case py_int (before_first ''Cited by '' r) of Inl e \<Rightarrow> 0 | Inr n \<Rightarrow> n)))"
    by (rule extract_cited_by_eq)
  show "map_option cited_by (extract_paper_info result) = Some (extract_cited_by result)"
    by (simp add: extract_paper_info_eq)
next
  assume a: "find cited_match (a_elems result) = Some a \<and> a_text a = ''Cited by '' @ ds \<and>
    ds \<noteq> [] \<and> list_all is_digit ds \<and> length ds \<le> 4300"
  have sep: "''Cited by '' \<noteq> []" by simp
  have "CHR ''C'' \<notin> set ds"
    using a by (auto simp: list_all_iff dest: is_digit_not_sign)
  then have whole: "before_first ''Cited by '' ds = ds"
    by (simp add: before_first_absent)
  have "after_first ''Cited by '' (a_text a) = Some ds"
    using a after_first_prefix [OF sep, of ds] by simp
  with a whole show "extract_cited_by result = int (decimal ds)"
    by (simp add: extract_cited_by_eq py_int_digits)
qed

theorem cited_by_of_first_anchor_witness:
  "find cited_match (a_elems (ex_block None [text_anchor ''Related articles'',
       text_anchor ''Cited by 42''])) = Some (text_anchor ''Cited by 42'') \<and>
   a_text (text_anchor ''Cited by 42'') = ''Cited by '' @ ''42'' \<and>
   list_all is_digit ''42'' \<and>
   extract_cited_by (ex_block None [text_anchor ''Related articles'',
       text_anchor ''Cited by 42'']) = 42"
proof -
  have found: "find cited_match (a_elems (ex_block None [text_anchor ''Related articles'',
       text_anchor ''Cited by 42''])) = Some (text_anchor ''Cited by 42'')"
    by (simp add: ex_block_def text_anchor_def cited_match_def)
  have shape: "a_text (text_anchor ''Cited by 42'') = ''Cited by '' @ ''42''"
    by (simp add: text_anchor_def)
  have digits: "list_all is_digit ''42''" and number: "decimal ''42'' = 42"
    by (simp_all add: is_digit_def decimal_def digit_val_def)
  from cited_by_of_first_anchor
      [of "ex_block None [text_anchor ''Related articles'', text_anchor ''Cited by 42'']"
        "text_anchor ''Cited by 42''" "''42''"] found shape digits number
  show ?thesis by simp
qed

text \<open>
  Against claim C7 as it was stated: of the two \<open>a\<close> elements of this block, one has a
  text with \<open>Cited by \<close> in it, which reads \<open>Cited by 42\<close>; the count extracted is 0, since
  the element before it, whose text is \<open>Cited by\<close>, is the one found.
\<close>

theorem cited_by_counterexample:
  "filter (\<lambda>a. contains ''Cited by '' (a_text a))
     (a_elems (ex_block None [text_anchor ''Cited by'', text_anchor ''Cited by 42''])) =
     [text_anchor ''Cited by 42''] \<and>
   extract_cited_by (ex_block None [text_anchor ''Cited by'', text_anchor ''Cited by 42'']) = 0"
  by (simp add: ex_block_def text_anchor_def extract_cited_by_def cited_match_def
      split_def getitem_def)

text \<open>
  Claim C8, as amended. When the byline element is present and its text is not empty,
  the authors are the parts, cut at the commas and trimmed, of the text before the first
  \<open> - \<close> of the byline, and \<open>publication_info\<close> is the whole text of the byline. When the
  byline element is absent or its text is empty, there are no authors and
  \<open>publication_info\<close> is the empty string.
\<close>

theorem authors_of_byline:
  "(div_gs_a result = Some t \<and> t \<noteq> [] \<longrightarrow>
      map_option authors (extract_paper_info result) =
        Some (map strip (split (before_first '' - '' t) '','')) \<and>
      map_option publication_info (extract_paper_info result) = Some t) \<and>
   (div_gs_a result = None \<or> div_gs_a result = Some [] \<longrightarrow>
      map_option authors (extract_paper_info result) = Some [] \<and>
      map_option publication_info (extract_paper_info result) = Some [])"
  by (auto simp: extract_paper_info_eq)

theorem authors_of_byline_witness:
  "div_gs_a (ex_block (Some ''A, B - Journal, 2020'') []) = Some ''A, B - Journal, 2020'' \<and>
   map_option authors (extract_paper_info (ex_block (Some ''A, B - Journal, 2020'') [])) =
     Some [''A'', ''B''] \<and>
   map_option publication_info (extract_paper_info (ex_block (Some ''A, B - Journal, 2020'') [])) =
     Some ''A, B - Journal, 2020'' \<and>
   div_gs_a (ex_block None []) = None \<and>
   map_option authors (extract_paper_info (ex_block None [])) = Some [] \<and>
   map_option publication_info (extract_paper_info (ex_block None [])) = Some []"
proof -
  have byline: "div_gs_a (ex_block (Some ''A, B - Journal, 2020'') []) =
      Some ''A, B - Journal, 2020''"
    and absent: "div_gs_a (ex_block None []) = None"
    by (simp_all add: ex_block_def)
  have names: "map strip (split (before_first '' - '' ''A, B - Journal, 2020'') '','') =
      [''A'', ''B'']"
    by (simp add: split_def strip_def py_isspace_def)
  from authors_of_byline [of "ex_block (Some ''A, B - Journal, 2020'') []" "''A, B - Journal, 2020''"]
    authors_of_byline [of "ex_block None []" "[]"] byline absent names
  show ?thesis by simp
qed

text \<open>
  Against claim C8 as it was stated: for a byline element that is present with an empty
  text, cutting and trimming as the claim says gives one author, the empty name; the
  extraction gives no author.
\<close>

theorem empty_byline_counterexample:
  "div_gs_a (ex_block (Some []) []) = Some [] \<and>
   map strip (split (before_first '' - '' []) '','') = [[]] \<and>
   map_option authors (extract_paper_info (ex_block (Some []) [])) = Some []"
  by (simp add: ex_block_def extract_paper_info_def extract_authors_def split_def strip_def)


end
